theory Spec2Isabelle
  imports Main
begin

section \<open>The filter-content component of ember-cli-filter-component\<close>

text \<open>
  A shallow embedding of \<^verbatim>\<open>addon/components/filter-content/component.js\<close>: the two
  computed properties \<^verbatim>\<open>normalizedProperties\<close> and \<^verbatim>\<open>normalizedQuery\<close>, and the
  methods \<^verbatim>\<open>aContainsB\<close>, \<^verbatim>\<open>getContentProps\<close> and \<^verbatim>\<open>applyFilter\<close>.
  Every method of the component wraps its body in \<^verbatim>\<open>try { ... } catch (exception)
  { window.console.error (name, exception) }\<close> and so returns \<^verbatim>\<open>undefined\<close> after an
  exception; the model returns the value together with the lines written to the console
  (\<^verbatim>\<open>window.console\<close> is taken to exist). The observer, the timer and the template are
  not modelled.
\<close>

subsection \<open>JavaScript values\<close>

text \<open>
  The content handed to the component is data: primitives, arrays and plain objects.
  Numbers are restricted to the integers (no fractions, no NaN), strings are lists of
  8-bit characters read as Latin-1 code points, and an object is the list of its own
  properties in insertion order (a key is looked up at its first occurrence).
\<close>

datatype jsval =
    JUndef
  | JNull
  | JBool bool
  | JNum int
  | JStr string
  | JArr "jsval list"
  | JObj "(string \<times> jsval) list"

text \<open>What a method can throw: the string thrown by the recursion guard of
  \<^verbatim>\<open>getContentProps\<close>, and the two errors of the runtime that the code can meet.\<close>

datatype exn = RecursionLimit | TypeError | SyntaxError

text \<open>The console: the \<^verbatim>\<open>window.console.error (name, exception)\<close> calls, oldest first.\<close>

type_synonym console = "(string \<times> exn) list"

text \<open>\<^verbatim>\<open>!!v\<close>: the falsy values are undefined, null, false, 0 and the empty string.\<close>

fun truthy :: "jsval \<Rightarrow> bool" where
  "truthy JUndef = False"
| "truthy JNull = False"
| "truthy (JBool b) = b"
| "truthy (JNum n) = (n \<noteq> 0)"
| "truthy (JStr s) = (s \<noteq> [])"
| "truthy (JArr xs) = True"
| "truthy (JObj kvs) = True"

text \<open>\<^verbatim>\<open>Ember.typeOf\<close> on the values of the model.\<close>

fun typeOf :: "jsval \<Rightarrow> string" where
  "typeOf JUndef = ''undefined''"
| "typeOf JNull = ''null''"
| "typeOf (JBool b) = ''boolean''"
| "typeOf (JNum n) = ''number''"
| "typeOf (JStr s) = ''string''"
| "typeOf (JArr xs) = ''array''"
| "typeOf (JObj kvs) = ''object''"

text \<open>Decimal numerals, for \<^verbatim>\<open>String (n)\<close> and for array indices as property names.\<close>

definition digit :: "nat \<Rightarrow> char" where
  "digit d = ''0123456789'' ! d"

fun show_nat :: "nat \<Rightarrow> string" where
  "show_nat n = (if n < 10 then [digit n] else show_nat (n div 10) @ [digit (n mod 10)])"

declare show_nat.simps [simp del]

definition show_int :: "int \<Rightarrow> string" where
  "show_int i = (if i < 0 then CHR ''-'' # show_nat (nat (- i)) else show_nat (nat i))"

text \<open>\<^verbatim>\<open>Array.prototype.join\<close> with a separator.\<close>

fun join :: "string \<Rightarrow> string list \<Rightarrow> string" where
  "join sep [] = []"
| "join sep [x] = x"
| "join sep (x # y # ys) = x @ sep @ join sep (y # ys)"

text \<open>The template literal \<^verbatim>\<open>`${b}`\<close>, that is \<^verbatim>\<open>String (b)\<close>. An array joins its elements
  with commas, writing nothing for undefined and null.\<close>

fun toString :: "jsval \<Rightarrow> string" where
  "toString JUndef = ''undefined''"
| "toString JNull = ''null''"
| "toString (JBool b) = (if b then ''true'' else ''false'')"
| "toString (JNum n) = show_int n"
| "toString (JStr s) = s"
| "toString (JArr xs) =
     join '','' (map (\<lambda>x. if x = JUndef \<or> x = JNull then [] else toString x) xs)"
| "toString (JObj kvs) = ''[object Object]''"

text \<open>\<^verbatim>\<open>values.concat (x)\<close>: an array argument is spread, anything else is appended as
  one element.\<close>

fun js_concat :: "jsval list \<Rightarrow> jsval \<Rightarrow> jsval list" where
  "js_concat values (JArr xs) = values @ xs"
| "js_concat values x = values @ [x]"

text \<open>
  \<^verbatim>\<open>Ember.get (obj, keyName)\<close> for a key without periods, as Ember 2 has it: it refuses
  undefined and null, returns the object itself for the empty key, and otherwise reads
  \<^verbatim>\<open>obj[keyName]\<close>. On the data of the model that is an own property of an object, and
  the length and the elements of an array or a string; inherited members (methods,
  Ember's array extensions) are not part of the model.
\<close>

definition index_of_key :: "string \<Rightarrow> nat \<Rightarrow> nat option" where
  "index_of_key k n = find (\<lambda>i. show_nat i = k) [0..<n]"

fun Ember_get :: "jsval \<Rightarrow> string \<Rightarrow> exn + jsval" where
  "Ember_get JUndef k = Inl TypeError"
| "Ember_get JNull k = Inl TypeError"
| "Ember_get (JObj kvs) k =
     (if k = [] then Inr (JObj kvs)
      else Inr (case map_of kvs k of None \<Rightarrow> JUndef | Some v \<Rightarrow> v))"
| "Ember_get (JArr xs) k =
     (if k = [] then Inr (JArr xs)
      else if k = ''length'' then Inr (JNum (int (length xs)))
      else Inr (case index_of_key k (length xs) of None \<Rightarrow> JUndef | Some i \<Rightarrow> xs ! i))"
| "Ember_get (JStr s) k =
     (if k = [] then Inr (JStr s)
      else if k = ''length'' then Inr (JNum (int (length s)))
      else Inr (case index_of_key k (length s) of None \<Rightarrow> JUndef | Some i \<Rightarrow> JStr [s ! i]))"
| "Ember_get v k = (if k = [] then Inr v else Inr JUndef)"

text \<open>
  \<^verbatim>\<open>if (item.forEach) { item.forEach (f) }\<close>: reading the property of undefined or null
  throws; an array iterates its elements; an object whose own property \<^verbatim>\<open>forEach\<close> is
  truthy data cannot be called; every other value has no \<^verbatim>\<open>forEach\<close> and is skipped
  (\<open>None\<close>).
\<close>

fun item_forEach :: "jsval \<Rightarrow> exn + jsval list option" where
  "item_forEach JUndef = Inl TypeError"
| "item_forEach JNull = Inl TypeError"
| "item_forEach (JArr xs) = Inr (Some xs)"
| "item_forEach (JObj kvs) =
     (case map_of kvs ''forEach'' of
        None \<Rightarrow> Inr None
      | Some f \<Rightarrow> if truthy f then Inl TypeError else Inr None)"
| "item_forEach v = Inr None"

subsection \<open>Character classes and the regular expressions of the component\<close>

text \<open>\<^verbatim>\<open>\w\<close>, \<^verbatim>\<open>\s\<close> (tab, line feed, vertical tab, form feed, carriage return, space and
  the no-break space) and \<^verbatim>\<open>\.\<close>.\<close>

definition is_word :: "char \<Rightarrow> bool" where
  "is_word c \<longleftrightarrow>
     c \<in> set ''abcdefghijklmnopqrstuvwxyzABCDEFGHIJKLMNOPQRSTUVWXYZ0123456789_''"

definition is_space :: "char \<Rightarrow> bool" where
  "is_space c \<longleftrightarrow>
     c \<in> set [CHR 0x09, CHR 0x0A, CHR 0x0B, CHR 0x0C, CHR 0x0D, CHR '' '', CHR 0xA0]"

definition is_period :: "char \<Rightarrow> bool" where
  "is_period c \<longleftrightarrow> c = CHR ''.''"

text \<open>
  \<^verbatim>\<open>s.split (/C+/g)\<close> for a character class \<open>C\<close>: the pieces of \<open>s\<close> between the maximal
  runs of \<open>C\<close>; a run at either end leaves an empty piece there, and the empty string
  splits into one empty piece. \<open>cur\<close> is the piece being read.
\<close>

function split_runs :: "(char \<Rightarrow> bool) \<Rightarrow> string \<Rightarrow> string \<Rightarrow> string list" where
  "split_runs C cur [] = [cur]"
| "split_runs C cur (c # cs) =
     (if C c then cur # split_runs C [] (dropWhile C cs)
      else split_runs C (cur @ [c]) cs)"
  by pat_completeness auto
termination
  by (relation "measure (\<lambda>(C, cur, s). length s)")
     (auto simp: le_imp_less_Suc length_dropWhile_le)

definition split_periods :: "string \<Rightarrow> string list" where
  "split_periods s = split_runs is_period [] s"

definition split_spaces :: "string \<Rightarrow> string list" where
  "split_spaces s = split_runs is_space [] s"

text \<open>\<^verbatim>\<open>.replace (/[^\w\s\@\.\-]+/g, '')\<close>: every character outside the class goes.\<close>

definition valid_char :: "char \<Rightarrow> bool" where
  "valid_char c \<longleftrightarrow> is_word c \<or> is_space c \<or> c = CHR ''@'' \<or> c = CHR ''.'' \<or> c = CHR ''-''"

definition remove_invalid :: "string \<Rightarrow> string" where
  "remove_invalid s = filter valid_char s"

text \<open>\<^verbatim>\<open>.replace (/[\.]{2,}/g, '.')\<close>: a run of two or more periods becomes one period.\<close>

function collapse_periods :: "string \<Rightarrow> string" where
  "collapse_periods [] = []"
| "collapse_periods [c] = [c]"
| "collapse_periods (c # d # cs) =
     (if is_period c \<and> is_period d then CHR ''.'' # collapse_periods (dropWhile is_period cs)
      else c # collapse_periods (d # cs))"
  by pat_completeness auto
termination
  by (relation "measure length") (auto simp: le_imp_less_Suc length_dropWhile_le less_Suc_eq_le le_SucI)

text \<open>
  \<^verbatim>\<open>.replace (/(\.+)?\s\1?/g, ' ')\<close>. A match starts at a whitespace character, or at a run
  of periods that a whitespace character follows (the group is greedy, and a shorter
  run is followed by a period); after the whitespace the back reference takes the same
  run of periods again when the text goes on with it, and nothing otherwise (a group
  that did not take part matches the empty string).
\<close>

function normalize_delimiter :: "string \<Rightarrow> string" where
  "normalize_delimiter [] = []"
| "normalize_delimiter (c # cs) =
     (let run = takeWhile is_period (c # cs) in
      case dropWhile is_period (c # cs) of
        [] \<Rightarrow> c # normalize_delimiter cs
      | w # rest \<Rightarrow>
          if is_space w then
            CHR '' '' # normalize_delimiter
              (if take (length run) rest = run then drop (length run) rest else rest)
          else c # normalize_delimiter cs)"
  by pat_completeness auto
termination
proof (relation "measure length", goal_cases)
  case 1
  show ?case by simp
next
  case (2 c cs)
  show ?case by simp
next
  case (3 c cs run w rest)
  have "length (dropWhile is_period (c # cs)) \<le> length (c # cs)"
    by (rule length_dropWhile_le)
  with 3 have "length rest < length (c # cs)"
    by simp
  then show ?case
    by (auto intro: le_less_trans [OF diff_le_self])
next
  case (4 c cs run w rest)
  show ?case by simp
qed

subsection \<open>The computed properties\<close>

text \<open>
  \<^verbatim>\<open>normalizedProperties\<close>: the space-delimited string of dot-notated properties, cleaned
  and split into its paths; the empty string gives no path.
\<close>

definition normalizedProperties :: "string \<Rightarrow> string list" where
  "normalizedProperties properties =
     (if properties = [] then []
      else filter (\<lambda>z. z \<noteq> [])
             (split_spaces (normalize_delimiter (collapse_periods (remove_invalid properties)))))"

text \<open>\<^verbatim>\<open>Ember.isPresent\<close> on a string: it is not empty and not only whitespace.\<close>

definition isPresent :: "string \<Rightarrow> bool" where
  "isPresent s \<longleftrightarrow> filter (\<lambda>c. \<not> is_space c) s \<noteq> []"

text \<open>\<^verbatim>\<open>query.replace (/\\+/g, '')\<close>: the backslashes go.\<close>

definition remove_backslashes :: "string \<Rightarrow> string" where
  "remove_backslashes s = filter (\<lambda>c. c \<noteq> CHR 0x5C) s"

definition normalizedQuery :: "string \<Rightarrow> string" where
  "normalizedQuery query = (if isPresent query then remove_backslashes query else [])"

subsection \<open>Matching\<close>

text \<open>
  The regular expressions of the runtime are a parameter of the model. An engine maps
  the pattern text of \<^verbatim>\<open>new RegExp (pattern, 'g')\<close> to \<open>None\<close> when the constructor throws
  a SyntaxError, and else to the test that tells of a string \<open>s\<close> whether
  \<^verbatim>\<open>s.match (regex)\<close> finds a match.
\<close>

type_synonym regexp = "string \<Rightarrow> bool"
type_synonym engine = "string \<Rightarrow> regexp option"

text \<open>\<^verbatim>\<open>s.includes (p)\<close>: \<open>p\<close> occurs in \<open>s\<close> as a run of consecutive characters.\<close>

fun str_includes :: "string \<Rightarrow> string \<Rightarrow> bool" where
  "str_includes [] p = (p = [])"
| "str_includes (c # cs) p = (take (length p) (c # cs) = p \<or> str_includes cs p)"

text \<open>
  The characters with a meaning in a pattern; a pattern without them is a sequence of
  characters that each match themselves, so the engines of ECMAScript find it where
  it occurs, with the case it has (the flag \<^verbatim>\<open>i\<close> is not given).
\<close>

definition syntax_char :: "char \<Rightarrow> bool" where
  "syntax_char c \<longleftrightarrow> c \<in> set [CHR ''^'', CHR ''$'', CHR 0x5C, CHR ''.'', CHR ''*'', CHR ''+'',
     CHR ''?'', CHR ''('', CHR '')'', CHR ''['', CHR '']'', CHR ''{'', CHR ''}'', CHR ''|'']"

definition literal_pattern :: "string \<Rightarrow> bool" where
  "literal_pattern p \<longleftrightarrow> filter syntax_char p = []"

definition ecma_literals :: "engine \<Rightarrow> bool" where
  "ecma_literals RegExp \<longleftrightarrow>
     (\<forall>p. literal_pattern p \<longrightarrow> RegExp p = Some (\<lambda>s. str_includes s p))"

text \<open>
  The smallest engine of that kind: it knows the patterns without syntax characters and
  refuses every other one. It answers as ECMAScript does on the patterns without
  syntax characters and on the pattern \<^verbatim>\<open>(\<close>, an unterminated group.
\<close>

definition literal_RegExp :: engine where
  "literal_RegExp p = (if literal_pattern p then Some (\<lambda>s. str_includes s p) else None)"

definition matchTypes :: "string list" where
  "matchTypes = [''boolean'', ''number'', ''string'']"

text \<open>
  \<^verbatim>\<open>aContainsB (a, b)\<close>. When both types are among \<^verbatim>\<open>matchTypes\<close> the pattern is built from
  \<open>b\<close> (a SyntaxError when the text is no pattern) and \<^verbatim>\<open>a.match\<close> is called, which only
  a string has: on a number or a boolean the call throws a TypeError. An exception is
  written to the console and the method returns undefined.
\<close>

definition aContainsB :: "engine \<Rightarrow> jsval \<Rightarrow> jsval \<Rightarrow> jsval \<times> console" where
  "aContainsB RegExp a b =
     (if typeOf a \<in> set matchTypes \<and> typeOf b \<in> set matchTypes then
        (case RegExp (toString b) of
           None \<Rightarrow> (JUndef, [(''aContainsB'', SyntaxError)])
         | Some regex \<Rightarrow>
             (case a of
                JStr s \<Rightarrow> (JBool (regex s), [])
              | _ \<Rightarrow> (JUndef, [(''aContainsB'', TypeError)])))
      else (JBool False, []))"

subsection \<open>Splitting and joining a path\<close>

text \<open>The pieces of a split hold no separator, and there is at most one piece more than
  there are separators: a path that was split, shortened and joined again splits into
  no more pieces than were joined.\<close>

lemma split_runs_length: "length (split_runs C cur s) \<le> Suc (length (filter C s))"
proof (induction C cur s rule: split_runs.induct)
  case (1 C cur)
  show ?case by simp
next
  case (2 C cur c cs)
  have "length (filter C (dropWhile C cs)) \<le> length (filter C cs)"
    by (metis filter_append length_append le_add2 takeWhile_dropWhile_id)
  with 2 show ?case by (auto simp: le_SucI)
qed

lemma split_runs_pieces:
  "\<forall>c \<in> set cur. \<not> C c \<Longrightarrow> x \<in> set (split_runs C cur s) \<Longrightarrow> c \<in> set x \<Longrightarrow> \<not> C c"
  by (induction C cur s arbitrary: x rule: split_runs.induct) (auto split: if_splits)

lemma filter_join_periods:
  "\<forall>x \<in> set xs. \<forall>c \<in> set x. \<not> is_period c \<Longrightarrow>
     length (filter is_period (join ''.'' xs)) = length xs - 1"
  by (induction "''.''" xs rule: join.induct) (auto simp: is_period_def)

lemma split_join_length:
  assumes "split_periods property = prop # propArr" and "propArr \<noteq> []"
  shows "length (split_periods (join ''.'' propArr)) \<le> length propArr"
proof -
  have "\<forall>x \<in> set propArr. \<forall>c \<in> set x. \<not> is_period c"
    using assms(1) split_runs_pieces [of "[]" is_period _ property]
    by (auto simp: split_periods_def)
  then have "length (filter is_period (join ''.'' propArr)) = length propArr - 1"
    by (rule filter_join_periods)
  moreover have "length (split_periods (join ''.'' propArr))
      \<le> Suc (length (filter is_period (join ''.'' propArr)))"
    unfolding split_periods_def by (rule split_runs_length)
  ultimately show ?thesis using assms(2) by (cases propArr) auto
qed

subsection \<open>Resolving a path\<close>

text \<open>
  \<^verbatim>\<open>getContentProps (item, property, inception = 0)\<close>, with the callback of
  \<^verbatim>\<open>item.forEach\<close> as \<open>forEach_item\<close>: the callback shares the variables \<^verbatim>\<open>values\<close> and
  \<^verbatim>\<open>inception\<close> of the call that runs the loop, so the loop passes both on from one
  element to the next, with the console.
\<close>

function getContentProps :: "jsval \<Rightarrow> string \<Rightarrow> nat \<Rightarrow> jsval \<times> console"
  and forEach_item ::
    "jsval list \<Rightarrow> string list \<Rightarrow> nat \<Rightarrow> jsval list \<Rightarrow> console \<Rightarrow> nat \<times> jsval list \<times> console"
where
  "getContentProps item property inception =
     (case split_periods property of
        [] \<Rightarrow> (JArr [], [])
      | prop # propArr \<Rightarrow>
          if inception > 100 then (JUndef, [(''getContentProps'', RecursionLimit)])
          else if prop = ''@each'' then
            (case item_forEach item of
               Inl e \<Rightarrow> (JUndef, [(''getContentProps'', e)])
             | Inr None \<Rightarrow> (JArr [], [])
             | Inr (Some xs) \<Rightarrow>
                 (case forEach_item xs propArr inception [] [] of
                    (inception', values, log) \<Rightarrow> (JArr values, log)))
          else
            (case Ember_get item prop of
               Inl e \<Rightarrow> (JUndef, [(''getContentProps'', e)])
             | Inr v \<Rightarrow>
                 (let z = (if truthy v then v else JArr []) in
                  if propArr \<noteq> [] then
                    (case getContentProps z (join ''.'' propArr) (Suc inception) of
                       (r, log) \<Rightarrow> (JArr (js_concat [] r), log))
                  else (JArr (js_concat [] z), []))))"
| "forEach_item [] propArr inception values log = (inception, values, log)"
| "forEach_item (i # items) propArr inception values log =
     (if propArr \<noteq> [] then
        (case getContentProps i (join ''.'' propArr) (Suc inception) of
           (r, log') \<Rightarrow> forEach_item items propArr (Suc inception) (js_concat values r) (log @ log'))
      else forEach_item items propArr inception (js_concat values i) log)"
  by pat_completeness auto


text \<open>Every nested call works on a path with fewer pieces; the loop goes down its list.\<close>

definition pieces_left :: "jsval \<times> string \<times> nat + jsval list \<times> string list \<times> nat \<times> jsval list \<times> console \<Rightarrow> nat" where
  "pieces_left a =
     (case a of
        Inl (item, property, inception) \<Rightarrow> 2 * length (split_periods property)
      | Inr (items, propArr, rest) \<Rightarrow>
          if propArr = [] then 0 else 2 * length (split_periods (join ''.'' propArr)) + 1)"

definition items_left :: "jsval \<times> string \<times> nat + jsval list \<times> string list \<times> nat \<times> jsval list \<times> console \<Rightarrow> nat" where
  "items_left a = (case a of Inl call \<Rightarrow> 0 | Inr (items, rest) \<Rightarrow> length items)"

termination getContentProps
proof (relation "measures [pieces_left, items_left]", goal_cases)
  case 1
  show ?case by simp
next
  case (2 item property inception seg propArr)
  then show ?case
    using split_join_length [of property seg propArr]
    by (auto simp: pieces_left_def)
next
  case (3 item property inception seg propArr)
  then show ?case
    using split_join_length [of property seg propArr]
    by (auto simp: pieces_left_def)
next
  case (4 i items propArr inception vs log)
  then show ?case by (auto simp: pieces_left_def)
next
  case (5 i items propArr inception vs log)
  then show ?case by (auto simp: pieces_left_def items_left_def)
next
  case (6 i items propArr inception vs log)
  then show ?case by (auto simp: pieces_left_def items_left_def)
qed

declare getContentProps.simps [simp del]

subsection \<open>Filtering\<close>

text \<open>
  \<^verbatim>\<open>applyFilter\<close>, on a content that is an array and on the two strings \<^verbatim>\<open>properties\<close> and
  \<^verbatim>\<open>query\<close> that the computed properties normalize. For one item, the callback of
  \<^verbatim>\<open>content.filter\<close> first resolves every path
  (\<^verbatim>\<open>values = values.concat (this.getContentProps (item, prop) || [])\<close>), then takes the
  values from the front until one matches, and last empties \<^verbatim>\<open>values\<close> for the next item.
  The value set as \<^verbatim>\<open>filteredContent\<close> is the result. The early return on
  \<^verbatim>\<open>!content || !properties\<close> is never taken, since both are arrays by then, and no
  exception reaches the \<^verbatim>\<open>catch\<close> of \<^verbatim>\<open>applyFilter\<close>: the two methods it calls catch their
  own.
\<close>

fun collect_values :: "jsval \<Rightarrow> string list \<Rightarrow> jsval list \<Rightarrow> jsval list \<times> console" where
  "collect_values item [] values = (values, [])"
| "collect_values item (prop # properties) values =
     (case getContentProps item prop 0 of
        (r, log) \<Rightarrow>
          (case collect_values item properties (js_concat values (if truthy r then r else JArr [])) of
             (values', log') \<Rightarrow> (values', log @ log')))"

fun match_values :: "engine \<Rightarrow> string \<Rightarrow> jsval list \<Rightarrow> bool \<times> console" where
  "match_values RegExp query [] = (False, [])"
| "match_values RegExp query (v # values) =
     (case aContainsB RegExp v (JStr query) of
        (r, log) \<Rightarrow>
          if truthy r then (True, log)
          else (case match_values RegExp query values of
                  (matched, log') \<Rightarrow> (matched, log @ log')))"

definition filter_item :: "engine \<Rightarrow> string list \<Rightarrow> string \<Rightarrow> jsval \<Rightarrow> bool \<times> console" where
  "filter_item RegExp properties query item =
     (case collect_values item properties [] of
        (values, log) \<Rightarrow>
          (case match_values RegExp query values of
             (matched, log') \<Rightarrow> (matched, log @ log')))"

fun content_filter ::
  "engine \<Rightarrow> string list \<Rightarrow> string \<Rightarrow> jsval list \<Rightarrow> jsval list \<times> console" where
  "content_filter RegExp properties query [] = ([], [])"
| "content_filter RegExp properties query (item # content) =
     (case filter_item RegExp properties query item of
        (matched, log) \<Rightarrow>
          (case content_filter RegExp properties query content of
             (rest, log') \<Rightarrow> (if matched then item # rest else rest, log @ log')))"

definition applyFilter :: "engine \<Rightarrow> jsval list \<Rightarrow> string \<Rightarrow> string \<Rightarrow> jsval list \<times> console" where
  "applyFilter RegExp content properties query =
     (if content \<noteq> [] \<and> normalizedProperties properties \<noteq> [] \<and> normalizedQuery query \<noteq> []
      then content_filter RegExp (normalizedProperties properties) (normalizedQuery query) content
      else (content, []))"

subsection \<open>Depth of a resolution\<close>




section \<open>Facts about the embedding\<close>

subsection \<open>Splitting\<close>

lemma split_runs_not_Nil: "split_runs C cur s \<noteq> []"
  by (induction C cur s rule: split_runs.induct) auto

lemma split_runs_no_separator:
  "\<forall>c \<in> set s. \<not> C c \<Longrightarrow> split_runs C cur s = [cur @ s]"
  by (induction s arbitrary: cur) auto

lemma split_periods_single: "CHR ''.'' \<notin> set s \<Longrightarrow> split_periods s = [s]"
  using split_runs_no_separator [of s is_period "[]"]
  by (auto simp: split_periods_def is_period_def)



subsection \<open>The normalized examples\<close>

lemma normalized_tags_each: "normalizedProperties ''tags.@each'' = [''tags.@each'']"
  by (simp add: normalizedProperties_def remove_invalid_def valid_char_def is_word_def
      is_space_def is_period_def split_spaces_def)

lemma normalizedQuery_red: "normalizedQuery ''red'' = ''red''"
  by (simp add: normalizedQuery_def isPresent_def remove_backslashes_def is_space_def)

lemma normalizedProperties_no_empty: "[] \<notin> set (normalizedProperties properties)"
  by (simp add: normalizedProperties_def)

lemma remove_backslashes_normalizedQuery:
  "remove_backslashes q = [] \<Longrightarrow> normalizedQuery q = []"
  by (simp add: normalizedQuery_def)

subsection \<open>The engines\<close>

lemma ecma_literals_literal_RegExp: "ecma_literals literal_RegExp"
  by (simp add: ecma_literals_def literal_RegExp_def)

lemma ecma_literals_red:
  "ecma_literals RegExp \<Longrightarrow> RegExp ''red'' = Some (\<lambda>s. str_includes s ''red'')"
  by (simp add: ecma_literals_def literal_pattern_def syntax_char_def)

subsection \<open>One step of the resolver\<close>

lemma getContentProps_over_limit:
  "100 < inception \<Longrightarrow>
     getContentProps item property inception = (JUndef, [(''getContentProps'', RecursionLimit)])"
  using split_runs_not_Nil [of is_period "[]" property]
  by (subst getContentProps.simps) (simp add: split_periods_def split: list.splits)

lemma getContentProps_last_property:
  assumes "CHR ''.'' \<notin> set seg" and "seg \<noteq> ''@each''" and "inception \<le> 100"
    and "Ember_get item seg = Inr v"
  shows "getContentProps item seg inception =
     (JArr (js_concat [] (if truthy v then v else JArr [])), [])"
  using assms by (subst getContentProps.simps) (simp add: split_periods_single)


lemma getContentProps_each:
  assumes "split_periods property = ''@each'' # propArr" and "inception \<le> 100"
  shows "getContentProps (JArr xs) property inception =
     (case forEach_item xs propArr inception [] [] of (i, vs, log) \<Rightarrow> (JArr vs, log))"
  using assms by (subst getContentProps.simps) simp


subsection \<open>The loop over the elements\<close>

lemma forEach_item_no_rest:
  "forEach_item items [] inception vs log = (inception, foldl js_concat vs items, log)"
  by (induction items arbitrary: vs) auto

lemma forEach_item_rest:
  "propArr \<noteq> [] \<Longrightarrow>
     forEach_item items propArr inception vs log =
       (inception + length items,
        foldl js_concat vs
          (map (\<lambda>(k, x). fst (getContentProps x (join ''.'' propArr) (Suc k))) (enumerate inception items)),
        log @ concat
          (map (\<lambda>(k, x). snd (getContentProps x (join ''.'' propArr) (Suc k))) (enumerate inception items)))"
  by (induction items arbitrary: inception vs log) (auto split: prod.splits)





subsection \<open>The filter\<close>

lemma fst_content_filter:
  "fst (content_filter RegExp properties query content) =
     filter (\<lambda>item. fst (filter_item RegExp properties query item)) content"
  by (induction content) (auto split: prod.splits)


subsection \<open>Resolutions that pass the limit\<close>





subsection \<open>An array of named objects\<close>

lemma getContentProps_name:
  "getContentProps (JObj [(''name'', JStr ''red'')]) ''name'' inception =
     (if inception \<le> 100 then (JArr [JStr ''red''], [])
      else (JUndef, [(''getContentProps'', RecursionLimit)]))"
proof (cases "inception \<le> 100")
  case True
  then show ?thesis
    by (subst getContentProps_last_property [where v = "JStr ''red''"]) simp_all
next
  case False
  then show ?thesis
    by (simp add: getContentProps_over_limit)
qed

lemma forEach_item_names:
  "forEach_item (replicate n (JObj [(''name'', JStr ''red'')])) [''name''] inception vs log =
     (inception + n,
      vs @ replicate (min n (100 - inception)) (JStr ''red'') @ replicate (n - (100 - inception)) JUndef,
      log @ replicate (n - (100 - inception)) (''getContentProps'', RecursionLimit))"
proof (induction n arbitrary: inception vs log)
  case 0
  show ?case by simp
next
  case (Suc n)
  show ?case
  proof (cases "inception < 100")
    case True
    then have m: "min (Suc n) (100 - inception) = Suc (min n (100 - Suc inception))"
      and d: "Suc n - (100 - inception) = n - (100 - Suc inception)"
      by auto
    from True have g: "getContentProps (JObj [(''name'', JStr ''red'')]) ''name'' (Suc inception)
        = (JArr [JStr ''red''], [])"
      by (simp add: getContentProps_name)
    have "forEach_item (replicate (Suc n) (JObj [(''name'', JStr ''red'')])) [''name''] inception vs log
        = forEach_item (replicate n (JObj [(''name'', JStr ''red'')])) [''name''] (Suc inception)
            (vs @ [JStr ''red'']) log"
      by (simp add: g)
    also have "\<dots> = (Suc inception + n,
        (vs @ [JStr ''red'']) @ replicate (min n (100 - Suc inception)) (JStr ''red'')
          @ replicate (n - (100 - Suc inception)) JUndef,
        log @ replicate (n - (100 - Suc inception)) (''getContentProps'', RecursionLimit))"
      by (rule Suc.IH)
    finally show ?thesis
      unfolding m d by simp
  next
    case False
    then have g: "getContentProps (JObj [(''name'', JStr ''red'')]) ''name'' (Suc inception)
        = (JUndef, [(''getContentProps'', RecursionLimit)])"
      by (simp add: getContentProps_name)
    from False have z: "100 - inception = 0" "100 - Suc inception = 0"
      by simp_all
    have "forEach_item (replicate (Suc n) (JObj [(''name'', JStr ''red'')])) [''name''] inception vs log
        = forEach_item (replicate n (JObj [(''name'', JStr ''red'')])) [''name''] (Suc inception)
            (vs @ [JUndef]) (log @ [(''getContentProps'', RecursionLimit)])"
      by (simp add: g)
    also have "\<dots> = (Suc inception + n,
        (vs @ [JUndef]) @ replicate (min n (100 - Suc inception)) (JStr ''red'')
          @ replicate (n - (100 - Suc inception)) JUndef,
        (log @ [(''getContentProps'', RecursionLimit)])
          @ replicate (n - (100 - Suc inception)) (''getContentProps'', RecursionLimit))"
      by (rule Suc.IH)
    finally show ?thesis
      unfolding z by (simp add: replicate_app_Cons_same)
  qed
qed

section \<open>The claims\<close>

text \<open>
  C1. For every content collection \<open>C\<close>, properties string \<open>p\<close> and query string \<open>q\<close>: when
  the normalized properties are empty, or the normalized query is empty (as it is when
  \<open>q\<close> without its backslashes is empty), or \<open>C\<close> is empty, the filter returns \<open>C\<close>
  unchanged, and writes nothing to the console.
\<close>

theorem C1_identity_short_circuit:
  assumes "normalizedProperties p = [] \<or> normalizedQuery q = [] \<or> remove_backslashes q = [] \<or> C = []"
  shows "applyFilter RegExp C p q = (C, [])"
  using assms by (auto simp: applyFilter_def remove_backslashes_normalizedQuery)

theorem C1_identity_short_circuit_witness:
  "normalizedProperties '''' = [] \<and>
   applyFilter literal_RegExp [JStr ''x''] '''' ''red'' = ([JStr ''x''], [])"
proof -
  have h: "normalizedProperties '''' = []"
    by (simp add: normalizedProperties_def)
  from C1_identity_short_circuit [OF disjI1 [OF h]] h show ?thesis
    by simp
qed

text \<open>
  C2. A candidate that is a number or a boolean passes the type test of \<^verbatim>\<open>aContainsB\<close>, but
  the method then calls \<^verbatim>\<open>a.match\<close>, which only a string has: the number 5, whose string
  form holds the query \<^verbatim>\<open>5\<close>, gives \<^verbatim>\<open>undefined\<close> with any engine, and the item whose
  property holds that number is not accepted.
\<close>

theorem C2_number_candidate_never_matches:
  "str_includes (toString (JNum 5)) ''5'' \<and>
   fst (aContainsB RegExp (JNum 5) (JStr ''5'')) = JUndef \<and>
   fst (applyFilter RegExp [JObj [(''n'', JNum 5)]] ''n'' ''5'') = []"
proof -
  have "toString (JNum 5) = ''5''"
    by (simp add: show_int_def show_nat.simps digit_def)
  moreover have a: "fst (aContainsB RegExp (JNum 5) (JStr ''5'')) = JUndef"
    by (simp add: aContainsB_def matchTypes_def split: option.splits)
  moreover have "getContentProps (JObj [(''n'', JNum 5)]) ''n'' 0 = (JArr [JNum 5], [])"
    by (subst getContentProps_last_property [where v = "JNum 5"]) simp_all
  then have "fst (applyFilter RegExp [JObj [(''n'', JNum 5)]] ''n'' ''5'') = []"
    using a
    by (auto simp add: applyFilter_def filter_item_def normalizedProperties_def normalizedQuery_def
        isPresent_def remove_backslashes_def remove_invalid_def valid_char_def is_word_def
        is_space_def is_period_def split_spaces_def split: prod.splits)
  ultimately show ?thesis by simp
qed

text \<open>
  C3. Filtering is idempotent: with the properties and the query held constant, filtering
  the filtered content again returns the filtered content.
\<close>

theorem C3_filter_idempotent:
  "fst (applyFilter RegExp (fst (applyFilter RegExp C p q)) p q) = fst (applyFilter RegExp C p q)"
  by (simp add: applyFilter_def fst_content_filter)

theorem C3_filter_idempotent_witness:
  "fst (applyFilter literal_RegExp
     (fst (applyFilter literal_RegExp
        [JObj [(''tags'', JArr [JStr ''red'', JStr ''blue''])], JObj [(''tags'', JArr [JStr ''green''])]]
        ''tags.@each'' ''red''))
     ''tags.@each'' ''red'')
   = fst (applyFilter literal_RegExp
        [JObj [(''tags'', JArr [JStr ''red'', JStr ''blue''])], JObj [(''tags'', JArr [JStr ''green''])]]
        ''tags.@each'' ''red'')"
  by (rule C3_filter_idempotent)




text \<open>
  C5. Wildcard expansion: on the content of the two items with the tags red, blue and
  green, the properties \<^verbatim>\<open>tags.@each\<close> and the query \<^verbatim>\<open>red\<close>, the filter returns exactly the
  first item (with an engine that finds a pattern of ordinary characters where it
  occurs). The path resolves to the tags of each item, in their order, and in general
  a last segment \<^verbatim>\<open>@each\<close> yields the elements of the array in element order,
  concatenated as \<^verbatim>\<open>values.concat\<close> does.
\<close>

theorem C5_wildcard_expansion:
  assumes "ecma_literals RegExp"
  shows "fst (applyFilter RegExp
            [JObj [(''tags'', JArr [JStr ''red'', JStr ''blue''])], JObj [(''tags'', JArr [JStr ''green''])]]
            ''tags.@each'' ''red'')
          = [JObj [(''tags'', JArr [JStr ''red'', JStr ''blue''])]] \<and>
         getContentProps (JObj [(''tags'', JArr [JStr ''red'', JStr ''blue''])]) ''tags.@each'' 0
          = (JArr [JStr ''red'', JStr ''blue''], []) \<and>
         getContentProps (JObj [(''tags'', JArr [JStr ''green''])]) ''tags.@each'' 0
          = (JArr [JStr ''green''], []) \<and>
         getContentProps (JArr xs) ''@each'' 0 = (JArr (foldl js_concat [] xs), [])"
proof -
  have s: "split_periods ''tags.@each'' = [''tags'', ''@each'']"
    by (simp add: split_periods_def is_period_def)
  have e: "getContentProps (JArr ys) ''@each'' i = (JArr (foldl js_concat [] ys), [])"
    if "i \<le> 100" for ys i
    using that
    by (subst getContentProps_each [where propArr = "[]"])
       (simp_all add: split_periods_single forEach_item_no_rest)
  have a: "getContentProps (JObj [(''tags'', JArr [JStr ''red'', JStr ''blue''])]) ''tags.@each'' 0
      = (JArr [JStr ''red'', JStr ''blue''], [])"
    by (subst getContentProps.simps) (simp add: s e)
  have b: "getContentProps (JObj [(''tags'', JArr [JStr ''green''])]) ''tags.@each'' 0
      = (JArr [JStr ''green''], [])"
    by (subst getContentProps.simps) (simp add: s e)
  have "fst (applyFilter RegExp
            [JObj [(''tags'', JArr [JStr ''red'', JStr ''blue''])], JObj [(''tags'', JArr [JStr ''green''])]]
            ''tags.@each'' ''red'')
          = [JObj [(''tags'', JArr [JStr ''red'', JStr ''blue''])]]"
    using ecma_literals_red [OF assms]
    by (simp add: applyFilter_def normalized_tags_each normalizedQuery_red filter_item_def a b
        aContainsB_def matchTypes_def)
  then show ?thesis using a b e [of 0 xs] by simp
qed

theorem C5_wildcard_expansion_witness:
  "ecma_literals literal_RegExp \<and>
   fst (applyFilter literal_RegExp
            [JObj [(''tags'', JArr [JStr ''red'', JStr ''blue''])], JObj [(''tags'', JArr [JStr ''green''])]]
            ''tags.@each'' ''red'')
          = [JObj [(''tags'', JArr [JStr ''red'', JStr ''blue''])]]"
  using C5_wildcard_expansion [OF ecma_literals_literal_RegExp] ecma_literals_literal_RegExp
  by simp

text \<open>
  C6. Path normalization of \<^verbatim>\<open>first.name  last..name\<close> yields exactly the two paths
  \<^verbatim>\<open>first.name\<close> and \<^verbatim>\<open>last.name\<close>, in that order: the two periods collapse to one, a
  whitespace character with the same period on both sides is one delimiter, and no
  normalized path is empty.
\<close>

theorem C6_path_normalization:
  "normalizedProperties ''first.name  last..name'' = [''first.name'', ''last.name''] \<and>
   collapse_periods ''first.name  last..name'' = ''first.name  last.name'' \<and>
   normalize_delimiter ''first. .name'' = ''first name'' \<and>
   [] \<notin> set (normalizedProperties properties)"
  by (simp add: normalizedProperties_def remove_invalid_def valid_char_def is_word_def
      is_space_def is_period_def split_spaces_def)

theorem C6_path_normalization_witness:
  "length (normalizedProperties ''first.name  last..name'') = 2"
  using C6_path_normalization [of "[]"] by simp

text \<open>
  C7. For every item on which the property \<^verbatim>\<open>a\<close> is absent, resolving the path \<^verbatim>\<open>a.b.c\<close>
  returns the empty value sequence and writes nothing to the console; the path adds no
  value to those of the other paths, and alone it rejects the item.
\<close>

theorem C7_missing_property:
  assumes "Ember_get item ''a'' = Inr JUndef"
  shows "getContentProps item ''a.b.c'' 0 = (JArr [], []) \<and>
         collect_values item (''a.b.c'' # properties) vs = collect_values item properties vs \<and>
         filter_item RegExp [''a.b.c''] query item = (False, [])"
proof -
  have c: "getContentProps (JArr []) ''c'' 2 = (JArr [], [])"
    by (subst getContentProps_last_property [where v = JUndef]) (simp_all add: index_of_key_def)
  have "split_periods ''b.c'' = [''b'', ''c'']"
    by (simp add: split_periods_def is_period_def)
  then have bc: "getContentProps (JArr []) ''b.c'' 1 = (JArr [], [])"
    using c by (subst getContentProps.simps) (simp add: index_of_key_def numeral_2_eq_2)
  have "split_periods ''a.b.c'' = [''a'', ''b'', ''c'']"
    by (simp add: split_periods_def is_period_def)
  then have abc: "getContentProps item ''a.b.c'' 0 = (JArr [], [])"
    using bc assms by (subst getContentProps.simps) simp
  then show ?thesis
    by (simp add: filter_item_def)
qed

theorem C7_missing_property_witness:
  "Ember_get (JObj [(''b'', JNum 1)]) ''a'' = Inr JUndef \<and>
   getContentProps (JObj [(''b'', JNum 1)]) ''a.b.c'' 0 = (JArr [], [])"
proof -
  have h: "Ember_get (JObj [(''b'', JNum 1)]) ''a'' = Inr JUndef"
    by simp
  from C7_missing_property [OF h] h show ?thesis
    by blast
qed






text \<open>
  C10. The counter is shared by the elements of a wildcard expansion: under a segment
  \<^verbatim>\<open>@each\<close> with a rest of the path, the element at index \<open>k\<close> is resolved with the
  counter at \<open>k + 1\<close>, so from the index 100 on (past the hundredth element) the
  resolution of the element hits the limit. On an array of \<open>n\<close> objects with a name and
  the path \<^verbatim>\<open>@each.name\<close>, two levels deep, the first hundred names come back and every
  further element gives \<^verbatim>\<open>undefined\<close> and a line on the console.
\<close>

theorem C10_counter_shared_by_elements:
  assumes "split_periods property = ''@each'' # propArr" and "propArr \<noteq> []"
  shows "getContentProps (JArr items) property 0 =
      (JArr (foldl js_concat []
         (map (\<lambda>(k, x). fst (getContentProps x (join ''.'' propArr) (Suc k))) (enumerate 0 items))),
       concat
         (map (\<lambda>(k, x). snd (getContentProps x (join ''.'' propArr) (Suc k))) (enumerate 0 items))) \<and>
    (\<forall>k x. 100 \<le> k \<longrightarrow>
       getContentProps x (join ''.'' propArr) (Suc k)
         = (JUndef, [(''getContentProps'', RecursionLimit)])) \<and>
    getContentProps (JArr (replicate n (JObj [(''name'', JStr ''red'')]))) ''@each.name'' 0 =
      (JArr (replicate (min n 100) (JStr ''red'') @ replicate (n - 100) JUndef),
       replicate (n - 100) (''getContentProps'', RecursionLimit))"
proof -
  have "getContentProps (JArr items) property 0 =
      (JArr (foldl js_concat []
         (map (\<lambda>(k, x). fst (getContentProps x (join ''.'' propArr) (Suc k))) (enumerate 0 items))),
       concat
         (map (\<lambda>(k, x). snd (getContentProps x (join ''.'' propArr) (Suc k))) (enumerate 0 items)))"
    using getContentProps_each [OF assms(1), of 0 items] assms(2)
    by (simp add: forEach_item_rest)
  moreover have "split_periods ''@each.name'' = [''@each'', ''name'']"
    by (simp add: split_periods_def is_period_def)
  then have "getContentProps (JArr (replicate n (JObj [(''name'', JStr ''red'')]))) ''@each.name'' 0 =
      (JArr (replicate (min n 100) (JStr ''red'') @ replicate (n - 100) JUndef),
       replicate (n - 100) (''getContentProps'', RecursionLimit))"
    using getContentProps_each [of "''@each.name''" "[''name'']" 0]
    by (simp add: forEach_item_names)
  ultimately show ?thesis
    by (simp add: getContentProps_over_limit)
qed

theorem C10_counter_shared_by_elements_witness:
  "split_periods ''@each.name'' = ''@each'' # [''name''] \<and> [''name''] \<noteq> [] \<and>
   getContentProps (JArr (replicate 101 (JObj [(''name'', JStr ''red'')]))) ''@each.name'' 0 =
      (JArr (replicate 100 (JStr ''red'') @ [JUndef]), [(''getContentProps'', RecursionLimit)])"
proof -
  have s: "split_periods ''@each.name'' = ''@each'' # [''name'']"
    by (simp add: split_periods_def is_period_def)
  have n: "[''name''] \<noteq> []"
    by simp
  from C10_counter_shared_by_elements [OF s n, of "[]" 101] s show ?thesis
    by simp
qed

end
